theory Spec2Isabelle
  imports Main
begin

section \<open>JavaScript values used by the notification pipeline\<close>

text \<open>
  The notification pipeline of \<^verbatim>\<open>notification_system.md\<close> is JavaScript. A property
  read on \<^verbatim>\<open>undefined\<close> throws a TypeError; the model returns it as a value.
  An absent property (the value \<^verbatim>\<open>undefined\<close>) is \<open>None\<close>.
\<close>

datatype js_error = TypeError

section \<open>Notification preferences\<close>

text \<open>
  \<^verbatim>\<open>notificationPreferencesSchema\<close>: master toggles per channel
  (\<^verbatim>\<open>channels.inApp\<close>, \<^verbatim>\<open>channels.email\<close>, ...) and, per notification type
  (\<^verbatim>\<open>types.comments\<close>, \<^verbatim>\<open>types.likes\<close>, ...), an \<^verbatim>\<open>enabled\<close> flag and the type's
  own \<^verbatim>\<open>channels\<close> object. An object is an association list from property names,
  read with \<open>map_of\<close>; a missing property or nested object is \<open>None\<close>. The per-type
  \<^verbatim>\<open>channels\<close> object is the field \<open>type_channels\<close> (the name \<open>channels\<close> is the
  master object's).
\<close>

record type_pref =
  enabled :: "bool option"
  type_channels :: "(string \<times> bool) list option"

record preferences =
  channels :: "(string \<times> bool) list option"
  types :: "(string \<times> type_pref) list option"

text \<open>JavaScript truthiness of a flag that may be absent: \<^verbatim>\<open>!undefined\<close> is true.\<close>

definition truthy :: "bool option \<Rightarrow> bool" where
  "truthy v = (case v of None \<Rightarrow> False | Some b \<Rightarrow> b)"

text \<open>
  \<^verbatim>\<open>
  function shouldDeliverToChannel(preferences, notificationType, channel) {
    if (!preferences.types[notificationType]?.enabled) { return false; }
    if (!preferences.channels[channel]) { return false; }
    return preferences.types[notificationType]?.channels[channel] ?? false;
  }
  \<close>
  \<^verbatim>\<open>preferences.types\<close> on an absent \<^verbatim>\<open>preferences\<close> throws, as does indexing an
  absent \<^verbatim>\<open>types\<close> or \<^verbatim>\<open>channels\<close> object. The optional chain \<^verbatim>\<open>?.\<close> only guards
  the type entry: an entry that is present but has no \<^verbatim>\<open>channels\<close> object throws in
  the last line.
\<close>

definition shouldDeliverToChannel ::
  "preferences option \<Rightarrow> string \<Rightarrow> string \<Rightarrow> js_error + bool" where
  "shouldDeliverToChannel prefs notificationType channel =
     (case prefs of
        None \<Rightarrow> Inl TypeError
      | Some p \<Rightarrow>
          (case types p of
             None \<Rightarrow> Inl TypeError
           | Some ts \<Rightarrow>
               if \<not> truthy (case map_of ts notificationType of None \<Rightarrow> None | Some e \<Rightarrow> enabled e)
               then Inr False
               else
                 (case channels p of
                    None \<Rightarrow> Inl TypeError
                  | Some cs \<Rightarrow>
                      if \<not> truthy (map_of cs channel) then Inr False
                      else
                        (case map_of ts notificationType of
                           None \<Rightarrow> Inr False
                         | Some e \<Rightarrow>
                             (case type_channels e of
                                None \<Rightarrow> Inl TypeError
                              | Some tcs \<Rightarrow>
                                  (case map_of tcs channel of
                                     None \<Rightarrow> Inr False
                                   | Some b \<Rightarrow> Inr b))))))"

text \<open>
  A stored preference record as the schema shapes it: the \<^verbatim>\<open>channels\<close> and
  \<^verbatim>\<open>types\<close> objects exist, and every type entry has its \<^verbatim>\<open>channels\<close> object.
  Single flags may still be absent.
\<close>

definition stored_record :: "preferences \<Rightarrow> bool" where
  "stored_record p =
     (case (channels p, types p) of
        (Some cs, Some ts) \<Rightarrow> list_all (\<lambda>(k, e). type_channels e \<noteq> None) ts
      | _ \<Rightarrow> False)"

text \<open>The three flags the spec names, read off a record (absent reads as false).\<close>

definition type_enabled :: "preferences \<Rightarrow> string \<Rightarrow> bool" where
  "type_enabled p t =
     (case types p of
        None \<Rightarrow> False
      | Some ts \<Rightarrow> (case map_of ts t of None \<Rightarrow> False | Some e \<Rightarrow> truthy (enabled e)))"

definition channel_globalEnabled :: "preferences \<Rightarrow> string \<Rightarrow> bool" where
  "channel_globalEnabled p c = (case channels p of None \<Rightarrow> False | Some cs \<Rightarrow> truthy (map_of cs c))"

definition type_channelOverride :: "preferences \<Rightarrow> string \<Rightarrow> string \<Rightarrow> bool option" where
  "type_channelOverride p t c =
     (case types p of
        None \<Rightarrow> None
      | Some ts \<Rightarrow>
          (case map_of ts t of
             None \<Rightarrow> None
           | Some e \<Rightarrow> (case type_channels e of None \<Rightarrow> None | Some tcs \<Rightarrow> map_of tcs c)))"

text \<open>The default record of the schema, for the three types it spells out.\<close>

definition default_channels :: "(string \<times> bool) list" where
  "default_channels =
     [(''inApp'', True), (''email'', True), (''push'', True), (''sms'', False)]"

definition likes_channels :: "(string \<times> bool) list" where
  "likes_channels =
     [(''inApp'', True), (''email'', False), (''push'', False), (''sms'', False)]"

definition default_types :: "(string \<times> type_pref) list" where
  "default_types =
     [(''comments'', \<lparr>enabled = Some True, type_channels = Some default_channels\<rparr>),
      (''likes'', \<lparr>enabled = Some True, type_channels = Some likes_channels\<rparr>),
      (''subscriptions'', \<lparr>enabled = Some True, type_channels = Some default_channels\<rparr>)]"

definition default_preferences :: preferences where
  "default_preferences = \<lparr>channels = Some default_channels, types = Some default_types\<rparr>"

section \<open>Notification records\<close>

text \<open>
  \<^verbatim>\<open>notificationSchema\<close>. The candidate handed to the pipeline carries the fields a
  producer sets; the stored row adds the generated \<^verbatim>\<open>_id\<close> (field \<open>nid\<close>), the
  read flag, the delivery status per channel and the two timestamps that
  \<^verbatim>\<open>timestamps: true\<close> maintains. Times are milliseconds since the epoch. User and
  resource ids are the hex values of their ObjectIds; \<^verbatim>\<open>type\<close> (field \<open>ntype\<close>) and
  \<^verbatim>\<open>resourceType\<close> are the schema's enum strings. \<^verbatim>\<open>data\<close> is of type Mixed: the
  model keeps its \<^verbatim>\<open>count\<close> property and, as a list, every other property.
\<close>

record delivery =
  delivered :: bool
  timestamp :: "int option"

record delivery_status =
  inApp :: delivery
  email :: delivery
  push :: delivery

record ndata =
  count :: "int option"
  other :: "(string \<times> string) list"

record candidate =
  recipient :: string
  sender :: "string option"
  ntype :: string
  resourceType :: string
  resourceId :: string
  message :: string
  data :: "ndata option"

record notification = candidate +
  nid :: nat
  isRead :: bool
  deliveryStatus :: delivery_status
  createdAt :: int
  updatedAt :: int

text \<open>The schema's defaults: nothing delivered on any channel, no timestamp.\<close>

definition not_delivered :: delivery where
  "not_delivered = \<lparr>delivered = False, timestamp = None\<rparr>"

definition default_deliveryStatus :: delivery_status where
  "default_deliveryStatus =
     \<lparr>inApp = not_delivered, email = not_delivered, push = not_delivered\<rparr>"

section \<open>Delivery router\<close>

text \<open>
  Modelled from the spec: the delivery router (\<^verbatim>\<open>deliver(notification)\<close> of the spec's
  section 4.4) is not in the sources, which hold only the \<^verbatim>\<open>deliveryStatus\<close> schema
  and the resolver it calls. For each of the channels inApp, email and push the router
  asks the preference resolver; where delivery is permitted it invokes the channel's
  adapter and, on success, records \<^verbatim>\<open>deliveryStatus[channel] = {delivered, timestamp}\<close>.
  Channels are independent. The adapters' outcomes (\<open>adapter\<close>), the clock (\<open>now\<close>) and
  the preference key of a notification type (\<open>typeKey\<close>: the schema's types are
  \<^verbatim>\<open>COMMENT\<close>, \<^verbatim>\<open>LIKE\<close>, ..., the preference keys \<^verbatim>\<open>comments\<close>, \<^verbatim>\<open>likes\<close>, ...) are
  parameters. The resolver is the source's \<open>shouldDeliverToChannel\<close>; a resolver that
  throws permits nothing.
\<close>

definition permitted ::
  "preferences option \<Rightarrow> (string \<Rightarrow> string) \<Rightarrow> notification \<Rightarrow> string \<Rightarrow> bool" where
  "permitted prefs typeKey n channel =
     (shouldDeliverToChannel prefs (typeKey (ntype n)) channel = Inr True)"

definition record_delivery ::
  "preferences option \<Rightarrow> (string \<Rightarrow> string) \<Rightarrow> (string \<Rightarrow> notification \<Rightarrow> bool) \<Rightarrow> int \<Rightarrow>
   notification \<Rightarrow> string \<Rightarrow> delivery \<Rightarrow> delivery" where
  "record_delivery prefs typeKey adapter now n channel d =
     (if permitted prefs typeKey n channel \<and> adapter channel n
      then \<lparr>delivered = True, timestamp = Some now\<rparr>
      else d)"

definition deliver ::
  "preferences option \<Rightarrow> (string \<Rightarrow> string) \<Rightarrow> (string \<Rightarrow> notification \<Rightarrow> bool) \<Rightarrow> int \<Rightarrow>
   notification \<Rightarrow> notification" where
  "deliver prefs typeKey adapter now n =
     n\<lparr>deliveryStatus :=
         \<lparr>inApp = record_delivery prefs typeKey adapter now n ''inApp''
                    (inApp (deliveryStatus n)),
          email = record_delivery prefs typeKey adapter now n ''email''
                    (email (deliveryStatus n)),
          push = record_delivery prefs typeKey adapter now n ''push''
                   (push (deliveryStatus n))\<rparr>\<rparr>"

text \<open>Sample data: a user who switched the master email toggle off.\<close>

definition email_off_preferences :: preferences where
  "email_off_preferences =
     \<lparr>channels = Some [(''inApp'', True), (''email'', False), (''push'', True), (''sms'', False)],
      types = Some default_types\<rparr>"

definition pref_key :: "string \<Rightarrow> string" where
  "pref_key t =
     (if t = ''COMMENT'' then ''comments''
      else if t = ''LIKE'' then ''likes''
      else if t = ''SUBSCRIPTION'' then ''subscriptions''
      else t)"

definition sample_comment :: notification where
  "sample_comment =
     \<lparr>recipient = ''owner1'', sender = Some ''author1'', ntype = ''COMMENT'',
      resourceType = ''VIDEO'', resourceId = ''video1'',
      message = ''New comment on your video'', data = None,
      nid = 0, isRead = False, deliveryStatus = default_deliveryStatus,
      createdAt = 1000, updatedAt = 1000\<rparr>"

section \<open>Notification store\<close>

text \<open>
  The collection behind the mongoose model \<^verbatim>\<open>Notification\<close>: its documents in
  natural order, and the next fresh \<^verbatim>\<open>_id\<close>. \<^verbatim>\<open>findOne\<close> returns the first document
  that satisfies the filter, \<^verbatim>\<open>findOneAndUpdate\<close> and \<^verbatim>\<open>findByIdAndUpdate\<close> change
  the first such document and (with \<^verbatim>\<open>new: true\<close>) return it as changed, or return
  null and change nothing when there is none. \<^verbatim>\<open>create\<close> appends a document with a
  fresh id, the schema's defaults and both timestamps set to the current time.
\<close>

record store =
  rows :: "notification list"
  next_id :: nat

fun update_first :: "('a \<Rightarrow> bool) \<Rightarrow> ('a \<Rightarrow> 'a) \<Rightarrow> 'a list \<Rightarrow> 'a list" where
  "update_first P f [] = []"
| "update_first P f (x # xs) = (if P x then f x # xs else x # update_first P f xs)"

definition findOne :: "(notification \<Rightarrow> bool) \<Rightarrow> store \<Rightarrow> notification option" where
  "findOne P s = find P (rows s)"

definition findOneAndUpdate ::
  "(notification \<Rightarrow> bool) \<Rightarrow> (notification \<Rightarrow> notification) \<Rightarrow> store \<Rightarrow>
   notification option \<times> store" where
  "findOneAndUpdate P f s =
     (map_option f (find P (rows s)), s\<lparr>rows := update_first P f (rows s)\<rparr>)"

definition findByIdAndUpdate ::
  "nat \<Rightarrow> (notification \<Rightarrow> notification) \<Rightarrow> store \<Rightarrow> notification option \<times> store" where
  "findByIdAndUpdate i f s = findOneAndUpdate (\<lambda>r. nid r = i) f s"

definition create :: "int \<Rightarrow> candidate \<Rightarrow> store \<Rightarrow> notification \<times> store" where
  "create now c s =
     (let r = \<lparr>recipient = recipient c, sender = sender c, ntype = ntype c,
                resourceType = resourceType c, resourceId = resourceId c,
                message = message c, data = data c,
                nid = next_id s, isRead = False, deliveryStatus = default_deliveryStatus,
                createdAt = now, updatedAt = now\<rparr>
      in (r, s\<lparr>rows := rows s @ [r], next_id := Suc (next_id s)\<rparr>))"

text \<open>Ids are unique and below the next fresh one.\<close>

definition wf_store :: "store \<Rightarrow> bool" where
  "wf_store s = (distinct (map nid (rows s)) \<and> list_all (\<lambda>r. nid r < next_id s) (rows s))"

definition empty_store :: store where
  "empty_store = \<lparr>rows = [], next_id = 0\<rparr>"

section \<open>Read status\<close>

text \<open>
  \<^verbatim>\<open>
  async function markAsRead(notificationId, userId) {
    return await Notification.findOneAndUpdate(
      { _id: notificationId, recipient: userId }, { isRead: true }, { new: true });
  }
  \<close>
  The schema's \<^verbatim>\<open>timestamps: true\<close> makes the update set \<^verbatim>\<open>updatedAt\<close> as well.
\<close>

definition markAsRead :: "int \<Rightarrow> nat \<Rightarrow> string \<Rightarrow> store \<Rightarrow> notification option \<times> store" where
  "markAsRead now notificationId userId s =
     findOneAndUpdate (\<lambda>r. nid r = notificationId \<and> recipient r = userId)
       (\<lambda>r. r\<lparr>isRead := True, updatedAt := now\<rparr>) s"

section \<open>Grouping of similar notifications\<close>

text \<open>A number in a template literal: its decimal digits, with a sign when negative.\<close>

function show_nat :: "nat \<Rightarrow> string" where
  "show_nat n =
     (if n < 10 then [''0123456789'' ! n]
      else show_nat (n div 10) @ [''0123456789'' ! (n mod 10)])"
  by pat_completeness auto
termination
  by (relation "measure id") auto

declare show_nat.simps [simp del]

definition show_int :: "int \<Rightarrow> string" where
  "show_int i = (if i < 0 then ''-'' @ show_nat (nat (- i)) else show_nat (nat i))"

text \<open>
  \<^verbatim>\<open>
  function generateGroupedMessage(type, count) {
    switch (type) {
      case 'LIKE': return `You received ${count} new likes on your content`;
      case 'COMMENT': return `You received ${count} new comments on your video`;
      default: return `You have ${count} new notifications`;
    }
  }
  \<close>
\<close>

definition generateGroupedMessage :: "string \<Rightarrow> int \<Rightarrow> string" where
  "generateGroupedMessage t n =
     (if t = ''LIKE'' then ''You received '' @ show_int n @ '' new likes on your content''
      else if t = ''COMMENT'' then
        ''You received '' @ show_int n @ '' new comments on your video''
      else ''You have '' @ show_int n @ '' new notifications'')"

text \<open>
  \<^verbatim>\<open>similar.data?.count || 1\<close>: an absent \<^verbatim>\<open>data\<close>, an absent count and the count 0
  all give 1. \<^verbatim>\<open>{ ...d, count: c }\<close> keeps the other properties of \<^verbatim>\<open>d\<close>; spreading
  an absent \<^verbatim>\<open>d\<close> adds nothing.
\<close>

definition prior_count :: "notification \<Rightarrow> int" where
  "prior_count similar =
     (case data similar of
        None \<Rightarrow> 1
      | Some d \<Rightarrow> (case count d of None \<Rightarrow> 1 | Some c \<Rightarrow> if c = 0 then 1 else c))"

definition spread_count :: "ndata option \<Rightarrow> int \<Rightarrow> ndata" where
  "spread_count d c =
     (case d of None \<Rightarrow> \<lparr>count = Some c, other = []\<rparr> | Some d' \<Rightarrow> d'\<lparr>count := Some c\<rparr>)"

text \<open>
  \<^verbatim>\<open>
  async function groupSimilarNotifications(userId, newNotification) {
    const { type, resourceType, resourceId } = newNotification;
    const similar = await Notification.findOne({
      recipient: userId, type, resourceType, resourceId,
      createdAt: { $gte: new Date(Date.now() - 3600000) } });
    if (similar) {
      const count = similar.data?.count || 1;
      return await Notification.findByIdAndUpdate(similar._id,
        { $set: { data: { ...similar.data, count: count + 1 }, updatedAt: new Date(),
                  isRead: false, message: generateGroupedMessage(type, count + 1) } },
        { new: true });
    }
    return await Notification.create({
      ...newNotification, data: { ...newNotification.data, count: 1 } });
  }
  \<close>
  The function suspends at its first \<^verbatim>\<open>await\<close>: \<open>findSimilar\<close> is the query, and
  \<open>resume\<close> is what runs once the query's answer is back, on the store as it is then.
  Run without interruption the two make \<open>groupSimilarNotifications\<close>.
\<close>

definition similar_filter :: "int \<Rightarrow> string \<Rightarrow> candidate \<Rightarrow> notification \<Rightarrow> bool" where
  "similar_filter now userId newNotification r =
     (recipient r = userId \<and> ntype r = ntype newNotification \<and>
      resourceType r = resourceType newNotification \<and>
      resourceId r = resourceId newNotification \<and>
      createdAt r \<ge> now - 3600000)"

definition findSimilar :: "int \<Rightarrow> string \<Rightarrow> candidate \<Rightarrow> store \<Rightarrow> notification option" where
  "findSimilar now userId newNotification s =
     findOne (similar_filter now userId newNotification) s"

definition resume ::
  "int \<Rightarrow> candidate \<Rightarrow> notification option \<Rightarrow> store \<Rightarrow> notification option \<times> store" where
  "resume now newNotification found s =
     (case found of
        Some similar \<Rightarrow>
          (let c = prior_count similar
           in findByIdAndUpdate (nid similar)
                (\<lambda>r. r\<lparr>data := Some (spread_count (data similar) (c + 1)),
                        updatedAt := now, isRead := False,
                        message := generateGroupedMessage (ntype newNotification) (c + 1)\<rparr>) s)
      | None \<Rightarrow>
          (case create now
                  (newNotification\<lparr>data := Some (spread_count (data newNotification) 1)\<rparr>) s of
             (r, s') \<Rightarrow> (Some r, s')))"

definition groupSimilarNotifications ::
  "int \<Rightarrow> string \<Rightarrow> candidate \<Rightarrow> store \<Rightarrow> notification option \<times> store" where
  "groupSimilarNotifications now userId newNotification s =
     resume now newNotification (findSimilar now userId newNotification s) s"

text \<open>
  Two calls in flight at once, in the order query, query, write, write: the second
  query runs while the first call is suspended at its \<^verbatim>\<open>await\<close>.
\<close>

definition interleaved :: "int \<Rightarrow> int \<Rightarrow> candidate \<Rightarrow> candidate \<Rightarrow> store \<Rightarrow> store" where
  "interleaved now1 now2 n1 n2 s =
     (let found1 = findSimilar now1 (recipient n1) n1 s;
          found2 = findSimilar now2 (recipient n2) n2 s;
          s1 = snd (resume now1 n1 found1 s)
      in snd (resume now2 n2 found2 s1))"

text \<open>
  Events delivered one after the other: each is a time and a candidate, grouped for
  the candidate's recipient.
\<close>

fun group_all :: "(int \<times> candidate) list \<Rightarrow> store \<Rightarrow> store" where
  "group_all [] s = s"
| "group_all ((now, n) # evs) s =
     group_all evs (snd (groupSimilarNotifications now (recipient n) n s))"

text \<open>
  Calls made on the store one after the other: a grouping call for an event, or a
  mark-as-read call, which a recipient may make between two events. \<open>events_of\<close>
  are the events among the calls, and \<open>ends_with_event\<close> says that the last call
  is a grouping call.
\<close>

datatype store_call = Group int candidate | MarkRead int nat string

fun run_calls :: "store_call list \<Rightarrow> store \<Rightarrow> store" where
  "run_calls [] s = s"
| "run_calls (Group now n # cs) s =
     run_calls cs (snd (groupSimilarNotifications now (recipient n) n s))"
| "run_calls (MarkRead now i u # cs) s = run_calls cs (snd (markAsRead now i u s))"

fun events_of :: "store_call list \<Rightarrow> (int \<times> candidate) list" where
  "events_of [] = []"
| "events_of (Group now n # cs) = (now, n) # events_of cs"
| "events_of (MarkRead now i u # cs) = events_of cs"

fun is_event :: "store_call \<Rightarrow> bool" where
  "is_event (Group now n) = True"
| "is_event (MarkRead now i u) = False"

definition ends_with_event :: "store_call list \<Rightarrow> bool" where
  "ends_with_event cs = (cs \<noteq> [] \<and> is_event (last cs))"

text \<open>
  Reading a decimal numeral, to say what number a rendered text shows: a numeral is a
  non-empty string of digits with no leading zero (but for zero itself), and its value
  is read digit by digit.
\<close>

definition is_digit :: "char \<Rightarrow> bool" where
  "is_digit c = (c \<in> set ''0123456789'')"

definition digit_value :: "char \<Rightarrow> nat" where
  "digit_value c = of_char c - 48"

definition decimal_value :: "string \<Rightarrow> nat" where
  "decimal_value ds = foldl (\<lambda>a c. 10 * a + digit_value c) 0 ds"

definition decimal_numeral :: "string \<Rightarrow> bool" where
  "decimal_numeral ds =
     (ds \<noteq> [] \<and> list_all is_digit ds \<and>
      (length ds = 1 \<or> hd ds \<noteq> CHR ''0''))"

text \<open>
  The grouping key of a candidate or row, the rows of a key, the count a row carries,
  and a sample like.
\<close>

definition same_key :: "candidate \<Rightarrow> 'a candidate_scheme \<Rightarrow> bool" where
  "same_key k r =
     (recipient r = recipient k \<and> ntype r = ntype k \<and> resourceType r = resourceType k \<and>
      resourceId r = resourceId k)"

definition key_rows :: "candidate \<Rightarrow> store \<Rightarrow> notification list" where
  "key_rows k s = filter (same_key k) (rows s)"

definition data_count :: "notification \<Rightarrow> int option" where
  "data_count r = (case data r of None \<Rightarrow> None | Some d \<Rightarrow> count d)"

definition like_event :: candidate where
  "like_event =
     \<lparr>recipient = ''owner1'', sender = Some ''fan1'', ntype = ''LIKE'',
      resourceType = ''VIDEO'', resourceId = ''video1'',
      message = ''fan1 liked your video'', data = None\<rparr>"

section \<open>Event bus and event handlers\<close>

text \<open>
  An id in an event payload is a JavaScript value: a string, or an ObjectId instance,
  which is an object (its heap address and its hex value). \<^verbatim>\<open>===\<close> and \<^verbatim>\<open>!==\<close> compare
  strings by value and objects by identity; the store compares ids by value.
\<close>

datatype js_id = IdString string | IdObject nat string

fun strict_equal :: "js_id \<Rightarrow> js_id \<Rightarrow> bool" where
  "strict_equal (IdString a) (IdString b) = (a = b)"
| "strict_equal (IdObject r a) (IdObject r' b) = (r = r')"
| "strict_equal _ _ = False"

fun id_value :: "js_id \<Rightarrow> string" where
  "id_value (IdString a) = a"
| "id_value (IdObject r a) = a"

record comment_event =
  videoId :: js_id
  commentId :: js_id
  authorId :: js_id
  videoOwnerId :: js_id
  commentText :: string

record subscription_event =
  subscriberId :: js_id
  subscriberName :: string
  channelId :: js_id

datatype event = NEW_COMMENT comment_event | NEW_SUBSCRIPTION subscription_event

text \<open>
  A listener is a function of the payload that changes the state and may fail. Node's
  \<^verbatim>\<open>EventEmitter.emit\<close> calls the listeners of the event synchronously, in the order of
  their registration, with no error handling of its own: an exception a listener
  throws leaves \<^verbatim>\<open>emit\<close> at once, and the listeners after it are not called. An
  \<^verbatim>\<open>async\<close> function never throws to its caller: its failure is a rejected promise,
  which nobody awaits here. The model runs each listener to its end when it is called.
  The result of \<open>emit\<close> is the exception that left it (if any), the rejections left
  unhandled, the number of listeners called and the state afterwards.
\<close>

datatype ('p, 's) listener =
  Sync "'p \<Rightarrow> 's \<Rightarrow> js_error option \<times> 's"
| Async "'p \<Rightarrow> 's \<Rightarrow> js_error option \<times> 's"

record 's emit_result =
  thrown :: "js_error option"
  unhandled :: "js_error list"
  invoked :: nat
  after :: 's

fun emit :: "('p, 's) listener list \<Rightarrow> 'p \<Rightarrow> 's emit_result \<Rightarrow> 's emit_result" where
  "emit [] d acc = acc"
| "emit (Sync h # hs) d acc =
     (case h d (after acc) of
        (None, s') \<Rightarrow> emit hs d (acc\<lparr>invoked := Suc (invoked acc), after := s'\<rparr>)
      | (Some e, s') \<Rightarrow> acc\<lparr>thrown := Some e, invoked := Suc (invoked acc), after := s'\<rparr>)"
| "emit (Async h # hs) d acc =
     (case h d (after acc) of
        (None, s') \<Rightarrow> emit hs d (acc\<lparr>invoked := Suc (invoked acc), after := s'\<rparr>)
      | (Some e, s') \<Rightarrow>
          emit hs d (acc\<lparr>unhandled := unhandled acc @ [e], invoked := Suc (invoked acc),
                         after := s'\<rparr>))"

text \<open>
  The singleton emitter: the listeners registered per event type.
  \<^verbatim>\<open>
  export function emitEvent(eventType, data) {
    console.log(`Event emitted: ${eventType}`, data);
    eventEmitter.emit(eventType, data);
  }
  \<close>
\<close>

record 's event_bus =
  comment_listeners :: "(comment_event, 's) listener list"
  subscription_listeners :: "(subscription_event, 's) listener list"

definition empty_bus :: "'s event_bus" where
  "empty_bus = \<lparr>comment_listeners = [], subscription_listeners = []\<rparr>"

definition emitEvent :: "'s event_bus \<Rightarrow> event \<Rightarrow> 's \<Rightarrow> 's emit_result" where
  "emitEvent bus ev s =
     (case ev of
        NEW_COMMENT d \<Rightarrow>
          emit (comment_listeners bus) d
            \<lparr>thrown = None, unhandled = [], invoked = 0, after = s\<rparr>
      | NEW_SUBSCRIPTION d \<Rightarrow>
          emit (subscription_listeners bus) d
            \<lparr>thrown = None, unhandled = [], invoked = 0, after = s\<rparr>)"

text \<open>
  \<^verbatim>\<open>
  eventEmitter.on(EVENT_TYPES.NEW_COMMENT, async (data) => {
    const { videoId, commentId, authorId, videoOwnerId, commentText } = data;
    if (authorId !== videoOwnerId) {
      await NotificationService.createNotification({
        recipient: videoOwnerId, sender: authorId, type: 'COMMENT',
        resourceId: videoId, resourceType: 'VIDEO',
        message: `New comment on your video: "${commentText.substring(0, 50)}..."` });
    }
  });
  eventEmitter.on(EVENT_TYPES.NEW_SUBSCRIPTION, async (data) => {
    const { subscriberId, subscriberName, channelId } = data;
    await NotificationService.createNotification({
      recipient: channelId, sender: subscriberId, type: 'SUBSCRIPTION',
      resourceId: subscriberId, resourceType: 'USER',
      message: `${subscriberName} subscribed to your channel!` });
  });
  \<close>
  \<^verbatim>\<open>NotificationService.createNotification\<close> is imported from a module that is not in
  the sources: it is the parameter \<open>createNotification\<close>, any function of the candidate
  that changes the state and may fail.
\<close>

definition newCommentHandler ::
  "(candidate \<Rightarrow> 's \<Rightarrow> js_error option \<times> 's) \<Rightarrow> comment_event \<Rightarrow> 's \<Rightarrow>
   js_error option \<times> 's" where
  "newCommentHandler createNotification d s =
     (if \<not> strict_equal (authorId d) (videoOwnerId d)
      then createNotification
             \<lparr>recipient = id_value (videoOwnerId d), sender = Some (id_value (authorId d)),
              ntype = ''COMMENT'', resourceType = ''VIDEO'',
              resourceId = id_value (videoId d),
              message = ''New comment on your video: '' @ [CHR 0x22] @
                        take 50 (commentText d) @ ''...'' @ [CHR 0x22],
              data = None\<rparr> s
      else (None, s))"

definition newSubscriptionHandler ::
  "(candidate \<Rightarrow> 's \<Rightarrow> js_error option \<times> 's) \<Rightarrow> subscription_event \<Rightarrow> 's \<Rightarrow>
   js_error option \<times> 's" where
  "newSubscriptionHandler createNotification d s =
     createNotification
       \<lparr>recipient = id_value (channelId d), sender = Some (id_value (subscriberId d)),
        ntype = ''SUBSCRIPTION'', resourceType = ''USER'',
        resourceId = id_value (subscriberId d),
        message = subscriberName d @ '' subscribed to your channel!'',
        data = None\<rparr> s"

definition registerEventHandlers ::
  "(candidate \<Rightarrow> 's \<Rightarrow> js_error option \<times> 's) \<Rightarrow> 's event_bus \<Rightarrow> 's event_bus" where
  "registerEventHandlers createNotification bus =
     bus\<lparr>comment_listeners :=
           comment_listeners bus @ [Async (newCommentHandler createNotification)],
         subscription_listeners :=
           subscription_listeners bus @ [Async (newSubscriptionHandler createNotification)]\<rparr>"

text \<open>
  The producer of \<^verbatim>\<open>NEW_COMMENT\<close>:
  \<^verbatim>\<open>
  export const addComment = async (req, res) => {
    ...
    const { videoId, content } = req.body;
    const userId = req.user._id;
    const comment = await Comment.create({ video: videoId, content, owner: userId });
    const video = await Video.findById(videoId);
    emitEvent(EVENT_TYPES.NEW_COMMENT, {
      videoId, commentId: comment._id, authorId: userId,
      videoOwnerId: video.owner, commentText: content });
    ...
  };
  \<close>
  The author's id is the \<^verbatim>\<open>_id\<close> of the request's user document and the owner's id
  the \<^verbatim>\<open>owner\<close> of the video document: two values read from two documents.
  \<open>addComment_event\<close> is the event the controller emits, given these values.
\<close>

definition addComment_event :: "js_id \<Rightarrow> js_id \<Rightarrow> js_id \<Rightarrow> js_id \<Rightarrow> string \<Rightarrow> event" where
  "addComment_event req_user_id req_videoId comment_id video_owner content =
     NEW_COMMENT
       \<lparr>videoId = req_videoId, commentId = comment_id, authorId = req_user_id,
        videoOwnerId = video_owner, commentText = content\<rparr>"

text \<open>
  Sample data: a notification service that inserts the candidate into the store at
  time 5000, a comment whose two ids are one string, and two listeners that write to a
  log, the first of which throws.
\<close>

definition insert_notification :: "candidate \<Rightarrow> store \<Rightarrow> js_error option \<times> store" where
  "insert_notification c s = (None, snd (create 5000 c s))"

definition own_comment :: comment_event where
  "own_comment =
     \<lparr>videoId = IdString ''video1'', commentId = IdString ''comment1'',
      authorId = IdString ''owner1'', videoOwnerId = IdString ''owner1'',
      commentText = ''my own video''\<rparr>"


definition logging_listener :: "(comment_event, string list) listener" where
  "logging_listener = Async (\<lambda>d log. (None, log @ [''second'']))"

definition rejecting_listener :: "(comment_event, string list) listener" where
  "rejecting_listener = Async (\<lambda>d log. (Some TypeError, log @ [''first'']))"

section \<open>WebSocket connection registry\<close>

text \<open>
  \<^verbatim>\<open>const clients = new Map();\<close> maps a user id to one socket. A socket is an object
  of the \<^verbatim>\<open>ws\<close> library: the model keeps its \<^verbatim>\<open>readyState\<close> and the messages sent
  on it, at the socket's address.
  \<^verbatim>\<open>
  wss.on("connection", (ws, req) => {
    ...
    try {
      const decoded = jwt.verify(token, process.env.JWT_SECRET);
      userId = decoded.userId;
      clients.set(userId, ws);
      ws.send(JSON.stringify({ type: 'connection_successful',
        data: { message: 'Connected to notification service' } }));
    } catch (error) {
      ws.close(1008, "Authentication failed");
      return;
    }
    ...
    ws.on("close", () => {
      if (userId) { clients.delete(userId); }
    });
    ws.on("error", (error) => {
      clients.delete(userId);
    });
  });

  function sendNotificationToUser(userId, notification) {
    const client = clients.get(userId);
    if (client && client.readyState === WebSocket.OPEN) {
      client.send(JSON.stringify({ type: 'notification', data: notification }));
      return true;
    }
    return false;
  }
  \<close>
  \<open>connection\<close> takes the address of the socket the library has just opened and the
  outcome of \<^verbatim>\<open>jwt.verify\<close>: the user id of the token, or \<open>None\<close> when it throws.
  The \<^verbatim>\<open>userId\<close> variable of the handler's closure is the socket's \<open>conn_userId\<close>:
  it is set exactly when verification succeeds, which is also when the close and error
  callbacks are registered. \<open>on_close\<close> and \<open>on_error\<close> are the socket's two events
  with these callbacks: they delete the registry's entry of the user, whichever socket
  that entry holds.
\<close>

datatype ready_state = CONNECTING | OPEN | CLOSING | CLOSED

datatype ws_message = Connection_successful string | Notification_message notification

record socket =
  readyState :: ready_state
  sent :: "ws_message list"
  conn_userId :: "string option"

record ws_server =
  clients :: "string \<rightharpoonup> nat"
  sockets :: "nat \<Rightarrow> socket"

definition ws_send :: "nat \<Rightarrow> ws_message \<Rightarrow> ws_server \<Rightarrow> ws_server" where
  "ws_send ws m srv =
     srv\<lparr>sockets := (sockets srv)(ws := (sockets srv ws)\<lparr>sent := sent (sockets srv ws) @ [m]\<rparr>)\<rparr>"

definition ws_close :: "nat \<Rightarrow> ws_server \<Rightarrow> ws_server" where
  "ws_close ws srv =
     srv\<lparr>sockets := (sockets srv)(ws := (sockets srv ws)\<lparr>readyState := CLOSED\<rparr>)\<rparr>"

definition accept :: "nat \<Rightarrow> ws_server \<Rightarrow> ws_server" where
  "accept ws srv =
     srv\<lparr>sockets := (sockets srv)(ws := \<lparr>readyState = OPEN, sent = [], conn_userId = None\<rparr>)\<rparr>"

definition set_userId :: "nat \<Rightarrow> string \<Rightarrow> ws_server \<Rightarrow> ws_server" where
  "set_userId ws userId srv =
     srv\<lparr>sockets := (sockets srv)(ws := (sockets srv ws)\<lparr>conn_userId := Some userId\<rparr>)\<rparr>"

definition connection :: "nat \<Rightarrow> string option \<Rightarrow> ws_server \<Rightarrow> ws_server" where
  "connection ws verified srv =
     (case verified of
        Some userId \<Rightarrow>
          ws_send ws (Connection_successful ''Connected to notification service'')
            ((set_userId ws userId (accept ws srv))\<lparr>clients := (clients srv)(userId \<mapsto> ws)\<rparr>)
      | None \<Rightarrow> ws_close ws (accept ws srv))"

definition on_close :: "nat \<Rightarrow> ws_server \<Rightarrow> ws_server" where
  "on_close ws srv =
     (case conn_userId (sockets srv ws) of
        None \<Rightarrow> ws_close ws srv
      | Some userId \<Rightarrow>
          if userId \<noteq> [] then (ws_close ws srv)\<lparr>clients := (clients srv)(userId := None)\<rparr>
          else ws_close ws srv)"

definition on_error :: "nat \<Rightarrow> ws_server \<Rightarrow> ws_server" where
  "on_error ws srv =
     (case conn_userId (sockets srv ws) of
        None \<Rightarrow> srv
      | Some userId \<Rightarrow> srv\<lparr>clients := (clients srv)(userId := None)\<rparr>)"

definition sendNotificationToUser ::
  "string \<Rightarrow> notification \<Rightarrow> ws_server \<Rightarrow> bool \<times> ws_server" where
  "sendNotificationToUser userId n srv =
     (case clients srv userId of
        None \<Rightarrow> (False, srv)
      | Some client \<Rightarrow>
          if readyState (sockets srv client) = OPEN
          then (True, ws_send client (Notification_message n) srv)
          else (False, srv))"

text \<open>
  A server with no connection, one where user R connected from two devices, and that
  one after R's first device has closed.
\<close>

definition empty_server :: ws_server where
  "empty_server =
     \<lparr>clients = Map.empty,
      sockets = (\<lambda>a. \<lparr>readyState = CLOSED, sent = [], conn_userId = None\<rparr>)\<rparr>"

definition two_devices :: ws_server where
  "two_devices = connection 2 (Some ''R'') (connection 1 (Some ''R'') empty_server)"

definition first_device_closed :: ws_server where
  "first_device_closed = on_close 1 two_devices"

text \<open>Sample stores and bursts.\<close>

definition two_users_store :: store where
  "two_users_store =
     \<lparr>rows = [sample_comment, sample_comment\<lparr>recipient := ''owner2'', nid := 1\<rparr>],
      next_id = 2\<rparr>"

text \<open>Twelve likes within an hour; the recipient reads the notification twice.\<close>

definition twelve_likes :: "store_call list" where
  "twelve_likes =
     [Group 1000 like_event, Group 2000 like_event, MarkRead 2500 0 ''owner1'',
      Group 3000 like_event, Group 4000 like_event, Group 5000 like_event,
      Group 6000 like_event, Group 7000 like_event, Group 8000 like_event,
      MarkRead 8500 0 ''owner1'', Group 9000 like_event, Group 10000 like_event,
      Group 11000 like_event, Group 12000 like_event]"

section \<open>Preference resolution\<close>

lemma stored_record_default: "stored_record default_preferences"
  by (simp add: stored_record_def default_preferences_def default_types_def)

text \<open>
  C3. On every stored preference record, for every notification type and channel,
  \<open>shouldDeliverToChannel\<close> returns the conjunction of the type's enabled flag, the
  channel's master toggle and the type's override for the channel; an absent override
  (or any absent flag) gives false.
\<close>

theorem shouldDeliverToChannel_conjunction:
  assumes "stored_record p"
  shows "shouldDeliverToChannel (Some p) t c =
           Inr (type_enabled p t \<and> channel_globalEnabled p c \<and>
                truthy (type_channelOverride p t c))"
proof -
  from assms obtain cs ts where cs: "channels p = Some cs" and ts: "types p = Some ts"
    and all: "list_all (\<lambda>(k, e). type_channels e \<noteq> None) ts"
    by (auto simp: stored_record_def split: option.splits)
  have tc: "type_channels e \<noteq> None" if "(k, e) \<in> set ts" for k e
    using all that by (auto simp: list_all_iff)
  show ?thesis
  proof (cases "map_of ts t")
    case None
    then show ?thesis
      by (simp add: shouldDeliverToChannel_def cs ts type_enabled_def truthy_def)
  next
    case (Some e)
    then have "(t, e) \<in> set ts" by (rule map_of_SomeD)
    then obtain tcs where tcs: "type_channels e = Some tcs" using tc by blast
    show ?thesis
      by (simp add: shouldDeliverToChannel_def cs ts Some tcs type_enabled_def
          channel_globalEnabled_def type_channelOverride_def truthy_def
          split: option.splits)
  qed
qed

theorem shouldDeliverToChannel_conjunction_witness:
  "stored_record default_preferences \<and>
   shouldDeliverToChannel (Some default_preferences) ''comments'' ''email'' = Inr True \<and>
   shouldDeliverToChannel (Some default_preferences) ''likes'' ''email'' = Inr False \<and>
   shouldDeliverToChannel (Some default_preferences) ''comments'' ''sms'' = Inr False \<and>
   shouldDeliverToChannel (Some default_preferences) ''COMMENT'' ''email'' = Inr False"
proof -
  note flags = type_enabled_def channel_globalEnabled_def type_channelOverride_def
    truthy_def default_preferences_def default_types_def default_channels_def
    likes_channels_def
  note conj = shouldDeliverToChannel_conjunction [OF stored_record_default]
  have "shouldDeliverToChannel (Some default_preferences) ''comments'' ''email'' = Inr True"
    unfolding conj by (simp add: flags)
  moreover
  have "shouldDeliverToChannel (Some default_preferences) ''likes'' ''email'' = Inr False"
    unfolding conj by (simp add: flags)
  moreover
  have "shouldDeliverToChannel (Some default_preferences) ''comments'' ''sms'' = Inr False"
    unfolding conj by (simp add: flags)
  moreover
  have "shouldDeliverToChannel (Some default_preferences) ''COMMENT'' ''email'' = Inr False"
    unfolding conj by (simp add: flags)
  ultimately show ?thesis
    using stored_record_default by simp
qed

text \<open>
  C4. When the preferences value is absent, \<open>shouldDeliverToChannel\<close> does not return
  false: reading \<^verbatim>\<open>preferences.types\<close> throws a TypeError. It never permits delivery
  there either.
\<close>

theorem shouldDeliverToChannel_absent_throws:
  "shouldDeliverToChannel None t c = Inl TypeError \<and>
   shouldDeliverToChannel None t c \<noteq> Inr True"
  by (simp add: shouldDeliverToChannel_def)

theorem shouldDeliverToChannel_absent_not_false:
  "shouldDeliverToChannel None ''comments'' ''email'' \<noteq> Inr False"
  by (simp add: shouldDeliverToChannel_def)

section \<open>The master toggle and the delivery status\<close>

lemma shouldDeliverToChannel_True_global:
  assumes "shouldDeliverToChannel (Some p) t c = Inr True"
  shows "channel_globalEnabled p c"
  using assms
  by (auto simp: shouldDeliverToChannel_def channel_globalEnabled_def
      split: option.splits if_splits)

text \<open>
  C7. When the master email toggle of a user's preference record is off (or absent),
  the resolver never permits email for any notification type, whatever the type's own
  email override says, and the delivery router leaves \<^verbatim>\<open>deliveryStatus.email\<close> as it
  was: a notification whose email status is not delivered stays so.
\<close>

theorem email_globally_disabled_never_delivered:
  assumes "\<not> channel_globalEnabled p ''email''"
  shows "shouldDeliverToChannel (Some p) t ''email'' \<noteq> Inr True \<and>
         email (deliveryStatus (deliver (Some p) typeKey adapter now n)) =
           email (deliveryStatus n) \<and>
         (delivered (email (deliveryStatus (deliver (Some p) typeKey adapter now n))) =
           delivered (email (deliveryStatus n)))"
proof -
  have no: "shouldDeliverToChannel (Some p) u ''email'' \<noteq> Inr True" for u
    using assms shouldDeliverToChannel_True_global by blast
  then have "\<not> permitted (Some p) typeKey n ''email''"
    by (simp add: permitted_def)
  then have "email (deliveryStatus (deliver (Some p) typeKey adapter now n)) =
      email (deliveryStatus n)"
    by (simp add: deliver_def record_delivery_def)
  with no show ?thesis by simp
qed

theorem email_globally_disabled_never_delivered_witness:
  "\<not> channel_globalEnabled email_off_preferences ''email'' \<and>
   type_channelOverride email_off_preferences ''comments'' ''email'' = Some True \<and>
   \<not> delivered (email (deliveryStatus
       (deliver (Some email_off_preferences) pref_key (\<lambda>c n. True) 2000 sample_comment))) \<and>
   delivered (inApp (deliveryStatus
       (deliver (Some email_off_preferences) pref_key (\<lambda>c n. True) 2000 sample_comment)))"
proof -
  have off: "\<not> channel_globalEnabled email_off_preferences ''email''"
    by (simp add: channel_globalEnabled_def email_off_preferences_def truthy_def)
  have ov: "type_channelOverride email_off_preferences ''comments'' ''email'' = Some True"
    by (simp add: type_channelOverride_def email_off_preferences_def default_types_def
        default_channels_def)
  have "delivered (email (deliveryStatus
       (deliver (Some email_off_preferences) pref_key (\<lambda>c n. True) 2000 sample_comment))) =
     delivered (email (deliveryStatus sample_comment))"
    using email_globally_disabled_never_delivered [OF off] by simp
  then have e: "\<not> delivered (email (deliveryStatus
       (deliver (Some email_off_preferences) pref_key (\<lambda>c n. True) 2000 sample_comment)))"
    by (simp add: sample_comment_def default_deliveryStatus_def not_delivered_def)
  have i: "delivered (inApp (deliveryStatus
       (deliver (Some email_off_preferences) pref_key (\<lambda>c n. True) 2000 sample_comment)))"
    by (simp add: deliver_def record_delivery_def permitted_def shouldDeliverToChannel_def
        email_off_preferences_def default_types_def default_channels_def truthy_def
        pref_key_def sample_comment_def)
  from off ov e i show ?thesis by simp
qed

section \<open>Store operations\<close>

lemma length_update_first: "length (update_first P f xs) = length xs"
  by (induction xs) auto

lemma update_first_nth:
  "k < length xs \<Longrightarrow>
     update_first P f xs ! k = xs ! k \<or> (P (xs ! k) \<and> update_first P f xs ! k = f (xs ! k))"
proof (induction xs arbitrary: k)
  case Nil
  then show ?case by simp
next
  case (Cons x xs)
  then show ?case by (cases k) auto
qed

lemma update_first_none: "\<forall>x \<in> set xs. \<not> P x \<Longrightarrow> update_first P f xs = xs"
  by (induction xs) auto

lemma find_none: "\<forall>x \<in> set xs. \<not> P x \<Longrightarrow> find P xs = None"
  by (induction xs) auto

text \<open>
  C10. \<open>markAsRead\<close> changes a row only if its id is the given notification id and
  its recipient the given user, and then only its read flag and update time; the number
  of rows and the id counter stay. If no row has both (the notification exists but
  belongs to another recipient, or does not exist), it returns null and the store is
  unchanged.
\<close>

theorem markAsRead_only_own:
  "length (rows (snd (markAsRead now i u s))) = length (rows s) \<and>
   next_id (snd (markAsRead now i u s)) = next_id s \<and>
   (\<forall>k < length (rows s).
      rows (snd (markAsRead now i u s)) ! k = rows s ! k \<or>
      (nid (rows s ! k) = i \<and> recipient (rows s ! k) = u \<and>
       rows (snd (markAsRead now i u s)) ! k = (rows s ! k)\<lparr>isRead := True, updatedAt := now\<rparr>)) \<and>
   ((\<forall>r \<in> set (rows s). nid r = i \<longrightarrow> recipient r \<noteq> u) \<longrightarrow>
      markAsRead now i u s = (None, s))"
proof -
  let ?P = "\<lambda>r. nid r = i \<and> recipient r = u"
  let ?f = "\<lambda>r. r\<lparr>isRead := True, updatedAt := now\<rparr>"
  have rows: "rows (snd (markAsRead now i u s)) = update_first ?P ?f (rows s)"
    by (simp add: markAsRead_def findOneAndUpdate_def)
  have a: "length (rows (snd (markAsRead now i u s))) = length (rows s)"
    by (simp add: rows length_update_first)
  have b: "next_id (snd (markAsRead now i u s)) = next_id s"
    by (simp add: markAsRead_def findOneAndUpdate_def)
  have c: "\<forall>k < length (rows s).
      rows (snd (markAsRead now i u s)) ! k = rows s ! k \<or>
      (nid (rows s ! k) = i \<and> recipient (rows s ! k) = u \<and>
       rows (snd (markAsRead now i u s)) ! k = (rows s ! k)\<lparr>isRead := True, updatedAt := now\<rparr>)"
    unfolding rows using update_first_nth [of _ "rows s" ?P ?f] by blast
  have d: "markAsRead now i u s = (None, s)"
    if "\<forall>r \<in> set (rows s). nid r = i \<longrightarrow> recipient r \<noteq> u"
  proof -
    from that have "\<forall>r \<in> set (rows s). \<not> ?P r" by blast
    then have "update_first ?P ?f (rows s) = rows s" and "find ?P (rows s) = None"
      by (rule update_first_none, rule find_none)
    then show ?thesis by (simp add: markAsRead_def findOneAndUpdate_def)
  qed
  from a b c d show ?thesis by blast
qed

theorem markAsRead_only_own_witness:
  "nid (rows two_users_store ! 1) = 1 \<and> recipient (rows two_users_store ! 1) = ''owner2'' \<and>
   markAsRead 5000 1 ''owner1'' two_users_store = (None, two_users_store) \<and>
   isRead (rows (snd (markAsRead 5000 1 ''owner2'' two_users_store)) ! 1) \<and>
   rows (snd (markAsRead 5000 1 ''owner2'' two_users_store)) ! 0 = rows two_users_store ! 0"
proof -
  have h: "\<forall>r \<in> set (rows two_users_store). nid r = 1 \<longrightarrow> recipient r \<noteq> ''owner1''"
    by (simp add: two_users_store_def sample_comment_def)
  have other: "markAsRead 5000 1 ''owner1'' two_users_store = (None, two_users_store)"
    using markAsRead_only_own [of 5000 1 "''owner1''" two_users_store] h by blast
  have own: "isRead (rows (snd (markAsRead 5000 1 ''owner2'' two_users_store)) ! 1) \<and>
      rows (snd (markAsRead 5000 1 ''owner2'' two_users_store)) ! 0 = rows two_users_store ! 0"
    by (simp add: markAsRead_def findOneAndUpdate_def two_users_store_def sample_comment_def)
  have "nid (rows two_users_store ! 1) = 1 \<and> recipient (rows two_users_store ! 1) = ''owner2''"
    by (simp add: two_users_store_def)
  with other own show ?thesis by simp
qed

section \<open>Grouping\<close>

lemma find_filter_single:
  "filter P xs = [r] \<Longrightarrow> Q r \<Longrightarrow> (\<And>x. R x = (P x \<and> Q x)) \<Longrightarrow> find R xs = Some r"
proof (induction xs)
  case Nil
  then show ?case by simp
next
  case (Cons x xs)
  then show ?case by (cases "P x") auto
qed

lemma find_filter_empty:
  "filter P xs = [] \<Longrightarrow> (\<And>x. R x \<Longrightarrow> P x) \<Longrightarrow> find R xs = None"
  by (induction xs) (auto split: if_splits)

lemma update_first_distinct:
  "distinct (map g xs) \<Longrightarrow>
     update_first (\<lambda>x. g x = i) f xs = map (\<lambda>x. if g x = i then f x else x) xs"
proof (induction xs)
  case Nil
  then show ?case by simp
next
  case (Cons x xs)
  show ?case
  proof (cases "g x = i")
    case True
    from Cons.prems have "g x \<notin> g ` set xs" by simp
    with True have "\<forall>y \<in> set xs. g y \<noteq> i" by blast
    then have "map (\<lambda>x. if g x = i then f x else x) xs = xs"
      by (induction xs) auto
    with True show ?thesis by simp
  next
    case False
    with Cons show ?thesis by simp
  qed
qed

lemma filter_map_preserved:
  "(\<And>x. K (h x) = K x) \<Longrightarrow> filter K (map h xs) = map h (filter K xs)"
  by (induction xs) auto

lemma group_step_update:
  assumes wf: "wf_store s"
    and one: "key_rows k s = [r]"
    and cnt: "data_count r = Some c" "c \<noteq> 0"
    and key: "same_key k n"
    and win: "createdAt r \<ge> now - 3600000"
  shows "wf_store (snd (groupSimilarNotifications now (recipient n) n s)) \<and>
         key_rows k (snd (groupSimilarNotifications now (recipient n) n s)) =
           [r\<lparr>data := Some (spread_count (data r) (c + 1)), updatedAt := now,
              isRead := False, message := generateGroupedMessage (ntype k) (c + 1)\<rparr>]"
proof -
  let ?f = "\<lambda>x::notification. x\<lparr>data := Some (spread_count (data r) (c + 1)), updatedAt := now,
              isRead := False, message := generateGroupedMessage (ntype k) (c + 1)\<rparr>"
  let ?h = "\<lambda>x. if nid x = nid r then ?f x else x"
  have found: "findSimilar now (recipient n) n s = Some r"
    unfolding findSimilar_def findOne_def
  proof (rule find_filter_single [where P = "same_key k" and Q = "\<lambda>x. createdAt x \<ge> now - 3600000"])
    show "filter (same_key k) (rows s) = [r]" using one by (simp add: key_rows_def)
    show "createdAt r \<ge> now - 3600000" by (rule win)
    show "similar_filter now (recipient n) n x = (same_key k x \<and> now - 3600000 \<le> createdAt x)" for x
      using key by (auto simp: similar_filter_def same_key_def)
  qed
  have pc: "prior_count r = c"
    using cnt by (auto simp: prior_count_def data_count_def split: option.splits)
  have nk: "ntype n = ntype k" using key by (simp add: same_key_def)
  have d: "distinct (map nid (rows s))" using wf by (simp add: wf_store_def)
  have rows': "rows (snd (groupSimilarNotifications now (recipient n) n s)) = map ?h (rows s)"
    by (simp add: groupSimilarNotifications_def found resume_def pc nk findByIdAndUpdate_def
        findOneAndUpdate_def update_first_distinct [OF d])
  have nxt: "next_id (snd (groupSimilarNotifications now (recipient n) n s)) = next_id s"
    by (simp add: groupSimilarNotifications_def found resume_def pc nk findByIdAndUpdate_def
        findOneAndUpdate_def)
  have nidh: "map nid (map ?h (rows s)) = map nid (rows s)"
    by (induction "rows s") auto
  have wf': "wf_store (snd (groupSimilarNotifications now (recipient n) n s))"
    using wf unfolding wf_store_def rows' nxt nidh by (auto simp: list_all_iff)
  have "filter (same_key k) (map ?h (rows s)) = map ?h (filter (same_key k) (rows s))"
    by (rule filter_map_preserved) (simp add: same_key_def)
  also have "\<dots> = [?f r]" using one by (simp add: key_rows_def)
  finally have "key_rows k (snd (groupSimilarNotifications now (recipient n) n s)) = [?f r]"
    by (simp add: key_rows_def rows')
  with wf' show ?thesis by simp
qed

lemma group_step_create:
  assumes wf: "wf_store s"
    and none: "key_rows k s = []"
    and key: "same_key k n"
  shows "wf_store (snd (groupSimilarNotifications now (recipient n) n s)) \<and>
         (\<exists>r. key_rows k (snd (groupSimilarNotifications now (recipient n) n s)) = [r] \<and>
              data_count r = Some 1 \<and> \<not> isRead r \<and> createdAt r = now \<and>
              message r = message n)"
proof -
  have found: "findSimilar now (recipient n) n s = None"
    unfolding findSimilar_def findOne_def
  proof (rule find_filter_empty [where P = "same_key k"])
    show "filter (same_key k) (rows s) = []" using none by (simp add: key_rows_def)
    show "similar_filter now (recipient n) n x \<Longrightarrow> same_key k x" for x
      using key by (auto simp: similar_filter_def same_key_def)
  qed
  let ?s' = "snd (groupSimilarNotifications now (recipient n) n s)"
  let ?r = "\<lparr>recipient = recipient n, sender = sender n, ntype = ntype n,
                resourceType = resourceType n, resourceId = resourceId n,
                message = message n, data = Some (spread_count (data n) 1),
                nid = next_id s, isRead = False, deliveryStatus = default_deliveryStatus,
                createdAt = now, updatedAt = now\<rparr>"
  have rows': "rows ?s' = rows s @ [?r]" and nxt: "next_id ?s' = Suc (next_id s)"
    by (simp_all add: groupSimilarNotifications_def found resume_def create_def Let_def)
  have wf': "wf_store ?s'"
    using wf unfolding wf_store_def rows' nxt by (auto simp: list_all_iff)
  have "filter (same_key k) (rows s @ [?r]) = [?r]"
    using none key by (simp add: key_rows_def same_key_def)
  then have kr: "key_rows k ?s' = [?r]"
    unfolding key_rows_def rows' .
  have "data_count ?r = Some 1"
    by (simp add: data_count_def spread_count_def split: option.splits)
  with wf' kr show ?thesis by simp
qed


text \<open>What \<open>show_int\<close> renders is the decimal numeral of the number.\<close>

lemma digit_nth:
  assumes "m < 10"
  shows "digit_value (''0123456789'' ! m) = m \<and> is_digit (''0123456789'' ! m) \<and>
         ((''0123456789'' ! m = CHR ''0'') = (m = 0))"
proof -
  from assms have "m \<in> {0, 1, 2, 3, 4, 5, 6, 7, 8, 9}" by auto
  then show ?thesis by (auto simp: digit_value_def is_digit_def)
qed

lemma decimal_value_snoc:
  "decimal_value (ds @ [c]) = 10 * decimal_value ds + digit_value c"
  by (simp add: decimal_value_def)

lemma show_nat_decimal:
  "show_nat n \<noteq> [] \<and> list_all is_digit (show_nat n) \<and>
   (hd (show_nat n) = CHR ''0'') = (n = 0) \<and> decimal_value (show_nat n) = n"
proof (induction n rule: show_nat.induct)
  case (1 n)
  show ?case
  proof (cases "n < 10")
    case True
    then have "show_nat n = [''0123456789'' ! n]" by (subst show_nat.simps) simp
    with digit_nth [OF True] show ?thesis by (simp add: decimal_value_def)
  next
    case False
    then have eq: "show_nat n = show_nat (n div 10) @ [''0123456789'' ! (n mod 10)]"
      by (subst show_nat.simps) simp
    have m: "n mod 10 < 10" by simp
    from False have pos: "n div 10 \<noteq> 0" by simp
    from "1.IH" [OF False] digit_nth [OF m] pos False
    show ?thesis
      unfolding eq by (auto simp: decimal_value_snoc)
  qed
qed

lemma show_int_numeral:
  "decimal_numeral (show_int (int n)) \<and> decimal_value (show_int (int n)) = n"
proof -
  have "show_int (int n) = show_nat n" by (simp add: show_int_def)
  moreover have "length (show_nat n) = 1 \<or> hd (show_nat n) \<noteq> CHR ''0''"
  proof (cases "n = 0")
    case True
    then show ?thesis by (subst show_nat.simps) simp
  next
    case False
    with show_nat_decimal [of n] show ?thesis by simp
  qed
  ultimately show ?thesis using show_nat_decimal [of n] by (simp add: decimal_numeral_def)
qed

text \<open>Mark-as-read keeps the store well formed and the rows of a key in place.\<close>

lemma map_update_first_preserved:
  "(\<And>x. g (f x) = g x) \<Longrightarrow> map g (update_first P f xs) = map g xs"
  by (induction xs) auto

lemma filter_update_first_empty:
  "(\<And>x. K (f x) = K x) \<Longrightarrow> filter K xs = [] \<Longrightarrow> filter K (update_first P f xs) = []"
proof (induction xs)
  case Nil
  then show ?case by simp
next
  case (Cons x xs)
  then show ?case by (cases "P x"; cases "K x") auto
qed

lemma filter_update_first_single:
  "(\<And>x. K (f x) = K x) \<Longrightarrow> filter K xs = [r] \<Longrightarrow>
     filter K (update_first P f xs) = [r] \<or> filter K (update_first P f xs) = [f r]"
proof (induction xs)
  case Nil
  then show ?case by simp
next
  case (Cons x xs)
  then show ?case
    by (cases "P x"; cases "K x") (auto simp: filter_update_first_empty)
qed

lemma markAsRead_wf:
  assumes "wf_store s"
  shows "wf_store (snd (markAsRead now i u s))"
proof -
  let ?P = "\<lambda>r. nid r = i \<and> recipient r = u"
  let ?f = "\<lambda>r::notification. r\<lparr>isRead := True, updatedAt := now\<rparr>"
  let ?rows = "update_first ?P ?f (rows s)"
  have ids: "map nid ?rows = map nid (rows s)"
    by (rule map_update_first_preserved) simp
  from assms have d: "distinct (map nid (rows s))"
    and b: "\<forall>j \<in> set (map nid (rows s)). j < next_id s"
    by (auto simp: wf_store_def list_all_iff)
  have d': "distinct (map nid ?rows)" unfolding ids by (rule d)
  have "\<forall>j \<in> set (map nid ?rows). j < next_id s" unfolding ids by (rule b)
  then have b': "list_all (\<lambda>r. nid r < next_id s) ?rows"
    by (auto simp: list_all_iff)
  from d' b' show ?thesis
    by (simp add: wf_store_def markAsRead_def findOneAndUpdate_def)
qed

lemma markAsRead_key_rows:
  assumes "key_rows k s = [r]"
  shows "\<exists>r'. key_rows k (snd (markAsRead now i u s)) = [r'] \<and>
           data_count r' = data_count r \<and> createdAt r' = createdAt r \<and>
           message r' = message r"
proof -
  let ?P = "\<lambda>r. nid r = i \<and> recipient r = u"
  let ?f = "\<lambda>r::notification. r\<lparr>isRead := True, updatedAt := now\<rparr>"
  have "filter (same_key k) (update_first ?P ?f (rows s)) = [r] \<or>
      filter (same_key k) (update_first ?P ?f (rows s)) = [?f r]"
    using assms by (intro filter_update_first_single) (simp_all add: same_key_def key_rows_def)
  then show ?thesis
    by (auto simp: key_rows_def markAsRead_def findOneAndUpdate_def data_count_def)
qed

lemma markAsRead_key_rows_empty:
  assumes "key_rows k s = []"
  shows "key_rows k (snd (markAsRead now i u s)) = []"
proof -
  let ?P = "\<lambda>r. nid r = i \<and> recipient r = u"
  let ?f = "\<lambda>r::notification. r\<lparr>isRead := True, updatedAt := now\<rparr>"
  have "filter (same_key k) (update_first ?P ?f (rows s)) = []"
    using assms by (intro filter_update_first_empty) (simp_all add: same_key_def key_rows_def)
  then show ?thesis
    by (simp add: key_rows_def markAsRead_def findOneAndUpdate_def)
qed

lemma run_calls_grouped:
  assumes "wf_store s" and "key_rows k s = [r]" and "data_count r = Some c" and "c \<ge> 1"
    and "\<forall>(t, n) \<in> set (events_of cs). same_key k n \<and> createdAt r \<ge> t - 3600000"
  shows "\<exists>r'. key_rows k (run_calls cs s) = [r'] \<and>
           data_count r' = Some (c + int (length (events_of cs))) \<and>
           (if cs = [] then r' = r
            else (if events_of cs = [] then message r' = message r
                  else message r' =
                         generateGroupedMessage (ntype k) (c + int (length (events_of cs)))) \<and>
                 (is_event (last cs) \<longrightarrow> \<not> isRead r'))"
  using assms
proof (induction cs arbitrary: s r c)
  case Nil
  then show ?case by simp
next
  case (Cons call cs)
  show ?case
  proof (cases call)
    case (Group t n)
    let ?s1 = "snd (groupSimilarNotifications t (recipient n) n s)"
    let ?r1 = "r\<lparr>data := Some (spread_count (data r) (c + 1)), updatedAt := t,
                isRead := False, message := generateGroupedMessage (ntype k) (c + 1)\<rparr>"
    from Cons.prems Group have key: "same_key k n" and win: "createdAt r \<ge> t - 3600000"
      by auto
    from Cons.prems have c0: "c \<noteq> 0" by simp
    have step: "wf_store ?s1 \<and> key_rows k ?s1 = [?r1]"
      using group_step_update [OF Cons.prems(1) Cons.prems(2) Cons.prems(3) c0 key win] .
    have cnt1: "data_count ?r1 = Some (c + 1)"
      by (simp add: data_count_def spread_count_def split: option.splits)
    have rest: "\<forall>(t, n) \<in> set (events_of cs). same_key k n \<and> createdAt ?r1 \<ge> t - 3600000"
      using Cons.prems(5) Group by auto
    have "c + 1 \<ge> 1" using Cons.prems(4) by simp
    from Cons.IH [OF conjunct1 [OF step] conjunct2 [OF step] cnt1 this rest]
    obtain r' where r': "key_rows k (run_calls cs ?s1) = [r']"
      "data_count r' = Some (c + 1 + int (length (events_of cs)))"
      "if cs = [] then r' = ?r1
       else (if events_of cs = [] then message r' = message ?r1
             else message r' =
                    generateGroupedMessage (ntype k) (c + 1 + int (length (events_of cs)))) \<and>
            (is_event (last cs) \<longrightarrow> \<not> isRead r')"
      by blast
    have eq: "c + 1 + int (length (events_of cs)) = c + int (length (events_of (call # cs)))"
      by (simp add: Group)
    have a: "key_rows k (run_calls (call # cs) s) = [r']" using r'(1) by (simp add: Group)
    have b: "data_count r' = Some (c + int (length (events_of (call # cs))))"
      using r'(2) unfolding eq .
    have m: "message r' =
        generateGroupedMessage (ntype k) (c + int (length (events_of (call # cs))))"
    proof (cases "events_of cs = []")
      case True
      have "message r' = message ?r1"
      proof (cases "cs = []")
        case True
        with r'(3) show ?thesis by simp
      next
        case False
        with r'(3) True show ?thesis by simp
      qed
      with True show ?thesis by (simp add: Group)
    next
      case False
      then have "cs \<noteq> []" by auto
      with r'(3) False have "message r' =
          generateGroupedMessage (ntype k) (c + 1 + int (length (events_of cs)))"
        by simp
      then show ?thesis unfolding eq .
    qed
    have rd: "\<not> isRead r'" if "is_event (last (call # cs))"
    proof (cases "cs = []")
      case True
      with r'(3) show ?thesis by simp
    next
      case False
      with that have "is_event (last cs)" by simp
      with r'(3) False show ?thesis by simp
    qed
    from a b m rd show ?thesis by (auto simp: Group)
  next
    case (MarkRead t i u)
    let ?s1 = "snd (markAsRead t i u s)"
    have wf1: "wf_store ?s1" using Cons.prems(1) by (rule markAsRead_wf)
    from markAsRead_key_rows [OF Cons.prems(2), of t i u]
    obtain r1 where r1: "key_rows k ?s1 = [r1]" "data_count r1 = data_count r"
      "createdAt r1 = createdAt r" "message r1 = message r"
      by blast
    have cnt1: "data_count r1 = Some c" using r1(2) Cons.prems(3) by simp
    have rest: "\<forall>(t, n) \<in> set (events_of cs). same_key k n \<and> createdAt r1 \<ge> t - 3600000"
      using Cons.prems(5) MarkRead r1(3) by auto
    from Cons.IH [OF wf1 r1(1) cnt1 Cons.prems(4) rest]
    obtain r' where r': "key_rows k (run_calls cs ?s1) = [r']"
      "data_count r' = Some (c + int (length (events_of cs)))"
      "if cs = [] then r' = r1
       else (if events_of cs = [] then message r' = message r1
             else message r' =
                    generateGroupedMessage (ntype k) (c + int (length (events_of cs)))) \<and>
            (is_event (last cs) \<longrightarrow> \<not> isRead r')"
      by blast
    have a: "key_rows k (run_calls (call # cs) s) = [r']" using r'(1) by (simp add: MarkRead)
    have b: "data_count r' = Some (c + int (length (events_of (call # cs))))"
      using r'(2) by (simp add: MarkRead)
    have m: "if events_of (call # cs) = [] then message r' = message r
        else message r' =
          generateGroupedMessage (ntype k) (c + int (length (events_of (call # cs))))"
    proof (cases "cs = []")
      case True
      with r'(3) r1(4) show ?thesis by (simp add: MarkRead)
    next
      case False
      with r'(3) r1(4) show ?thesis by (simp add: MarkRead)
    qed
    have rd: "\<not> isRead r'" if "is_event (last (call # cs))"
    proof (cases "cs = []")
      case True
      with that show ?thesis by (simp add: MarkRead)
    next
      case False
      with that have "is_event (last cs)" by simp
      with r'(3) False show ?thesis by simp
    qed
    from a b m rd show ?thesis by auto
  qed
qed

lemma run_calls_first_event:
  assumes "wf_store s" and "key_rows k s = []" and "events_of cs \<noteq> []"
    and "\<forall>(t, n) \<in> set (events_of cs). same_key k n \<and> fst (hd (events_of cs)) \<ge> t - 3600000"
  shows "\<exists>r. key_rows k (run_calls cs s) = [r] \<and>
           data_count r = Some (int (length (events_of cs))) \<and>
           message r =
             (if length (events_of cs) = 1 then message (snd (hd (events_of cs)))
              else generateGroupedMessage (ntype k) (int (length (events_of cs)))) \<and>
           (is_event (last cs) \<longrightarrow> \<not> isRead r)"
  using assms
proof (induction cs arbitrary: s)
  case Nil
  then show ?case by simp
next
  case (Cons call cs)
  show ?case
  proof (cases call)
    case (MarkRead t i u)
    let ?s1 = "snd (markAsRead t i u s)"
    have wf1: "wf_store ?s1" using Cons.prems(1) by (rule markAsRead_wf)
    have none: "key_rows k ?s1 = []" using Cons.prems(2) by (rule markAsRead_key_rows_empty)
    from Cons.prems(3) MarkRead have ne: "events_of cs \<noteq> []" by simp
    then have csne: "cs \<noteq> []" by auto
    from Cons.prems(4) MarkRead
    have win: "\<forall>(t, n) \<in> set (events_of cs).
        same_key k n \<and> fst (hd (events_of cs)) \<ge> t - 3600000"
      by simp
    have e1: "run_calls (call # cs) s = run_calls cs ?s1"
      and e2: "events_of (call # cs) = events_of cs"
      and e3: "last (call # cs) = last cs"
      using csne by (simp_all add: MarkRead)
    from Cons.IH [OF wf1 none ne win] show ?thesis unfolding e1 e2 e3 .
  next
    case (Group t n)
    let ?s1 = "snd (groupSimilarNotifications t (recipient n) n s)"
    from Cons.prems(4) Group have key: "same_key k n" by simp
    from group_step_create [OF Cons.prems(1) Cons.prems(2) key, of t]
    obtain r where wf1: "wf_store ?s1" and r: "key_rows k ?s1 = [r]" "data_count r = Some 1"
      "\<not> isRead r" "createdAt r = t" "message r = message n"
      by blast
    have rest: "\<forall>(t', n') \<in> set (events_of cs). same_key k n' \<and> createdAt r \<ge> t' - 3600000"
      using Cons.prems(4) Group r(4) by auto
    from run_calls_grouped [OF wf1 r(1) r(2) _ rest]
    obtain r' where r': "key_rows k (run_calls cs ?s1) = [r']"
      "data_count r' = Some (1 + int (length (events_of cs)))"
      "if cs = [] then r' = r
       else (if events_of cs = [] then message r' = message r
             else message r' =
                    generateGroupedMessage (ntype k) (1 + int (length (events_of cs)))) \<and>
            (is_event (last cs) \<longrightarrow> \<not> isRead r')"
      by auto
    have eq: "1 + int (length (events_of cs)) = int (length (events_of (call # cs)))"
      by (simp add: Group)
    have a: "key_rows k (run_calls (call # cs) s) = [r']" using r'(1) by (simp add: Group)
    have b: "data_count r' = Some (int (length (events_of (call # cs))))"
      using r'(2) unfolding eq .
    have m: "message r' =
        (if length (events_of (call # cs)) = 1 then message (snd (hd (events_of (call # cs))))
         else generateGroupedMessage (ntype k) (int (length (events_of (call # cs)))))"
    proof (cases "events_of cs = []")
      case True
      have "message r' = message r"
      proof (cases "cs = []")
        case True
        with r'(3) show ?thesis by simp
      next
        case False
        with r'(3) True show ?thesis by simp
      qed
      with True r(5) show ?thesis by (simp add: Group)
    next
      case False
      then have "cs \<noteq> []" by auto
      with r'(3) False have "message r' =
          generateGroupedMessage (ntype k) (1 + int (length (events_of cs)))"
        by simp
      moreover from False have "length (events_of (call # cs)) \<noteq> 1" by (simp add: Group)
      ultimately show ?thesis unfolding eq by simp
    qed
    have rd: "\<not> isRead r'" if "is_event (last (call # cs))"
    proof (cases "cs = []")
      case True
      with r'(3) r(3) show ?thesis by simp
    next
      case False
      with that have "is_event (last cs)" by simp
      with r'(3) False show ?thesis by simp
    qed
    from a b m rd show ?thesis by blast
  qed
qed

text \<open>
  C1. Start from a store with unique ids and no row of a grouping key, and make calls
  one after the other: N >= 1 grouping calls for events of that key, each no later than
  one hour after the first (whose time is the row's \<^verbatim>\<open>createdAt\<close>), with any
  mark-as-read calls in between, the last call being an event's. Then the store has
  exactly one row of the key, its \<^verbatim>\<open>data.count\<close> is N and it is unread. For N >= 2 its
  message is the text of the type's template around the decimal numeral of N:
  "You received N new likes on your content" for LIKE, "You received N new comments on
  your video" for COMMENT, "You have N new notifications" otherwise. For N = 1 the row
  is the inserted one and its message is the event's own: nothing has re-rendered it.
\<close>

theorem sequential_grouping_single_row:
  assumes "wf_store s" and "key_rows k s = []" and "events_of cs \<noteq> []"
    and "ends_with_event cs"
    and "\<forall>(t, n) \<in> set (events_of cs). same_key k n \<and> fst (hd (events_of cs)) \<ge> t - 3600000"
  shows "\<exists>r d. key_rows k (run_calls cs s) = [r] \<and>
           data_count r = Some (int (length (events_of cs))) \<and> \<not> isRead r \<and>
           decimal_numeral d \<and> decimal_value d = length (events_of cs) \<and>
           message r =
             (if length (events_of cs) = 1 then message (snd (hd (events_of cs)))
              else if ntype k = ''LIKE'' then
                ''You received '' @ d @ '' new likes on your content''
              else if ntype k = ''COMMENT'' then
                ''You received '' @ d @ '' new comments on your video''
              else ''You have '' @ d @ '' new notifications'')"
proof -
  let ?N = "length (events_of cs)"
  from run_calls_first_event [OF assms(1) assms(2) assms(3) assms(5)] assms(4)
  obtain r where r: "key_rows k (run_calls cs s) = [r]" "data_count r = Some (int ?N)"
    "message r =
       (if ?N = 1 then message (snd (hd (events_of cs)))
        else generateGroupedMessage (ntype k) (int ?N))"
    "\<not> isRead r"
    by (auto simp: ends_with_event_def)
  let ?d = "show_int (int ?N)"
  have d: "decimal_numeral ?d \<and> decimal_value ?d = ?N" by (rule show_int_numeral)
  have "message r =
      (if ?N = 1 then message (snd (hd (events_of cs)))
       else if ntype k = ''LIKE'' then ''You received '' @ ?d @ '' new likes on your content''
       else if ntype k = ''COMMENT'' then
         ''You received '' @ ?d @ '' new comments on your video''
       else ''You have '' @ ?d @ '' new notifications'')"
    using r(3) by (simp add: generateGroupedMessage_def)
  with r(1) r(2) r(4) d show ?thesis by blast
qed

lemma twelve_likes_row:
  "key_rows like_event (run_calls twelve_likes empty_store) =
     [\<lparr>recipient = ''owner1'', sender = Some ''fan1'', ntype = ''LIKE'',
       resourceType = ''VIDEO'', resourceId = ''video1'',
       message = ''You received 12 new likes on your content'',
       data = Some \<lparr>count = Some 12, other = []\<rparr>,
       nid = 0, isRead = False, deliveryStatus = default_deliveryStatus,
       createdAt = 1000, updatedAt = 12000\<rparr>]"
  by (simp add: twelve_likes_def empty_store_def groupSimilarNotifications_def findSimilar_def
      findOne_def similar_filter_def resume_def create_def findByIdAndUpdate_def
      findOneAndUpdate_def markAsRead_def prior_count_def spread_count_def
      generateGroupedMessage_def show_int_def show_nat.simps key_rows_def same_key_def
      like_event_def Let_def)

theorem sequential_grouping_single_row_witness:
  "wf_store empty_store \<and> key_rows like_event empty_store = [] \<and>
   ends_with_event twelve_likes \<and> length (events_of twelve_likes) = 12 \<and>
   (\<exists>r d. key_rows like_event (run_calls twelve_likes empty_store) = [r] \<and>
        data_count r = Some 12 \<and> \<not> isRead r \<and>
        decimal_numeral d \<and> decimal_value d = 12 \<and>
        message r = ''You received '' @ d @ '' new likes on your content'') \<and>
   map message (key_rows like_event (run_calls twelve_likes empty_store)) =
     [''You received 12 new likes on your content'']"
proof -
  have wf: "wf_store empty_store" by (simp add: wf_store_def empty_store_def)
  have none: "key_rows like_event empty_store = []"
    by (simp add: key_rows_def empty_store_def)
  have len: "length (events_of twelve_likes) = 12" by (simp add: twelve_likes_def)
  then have ne: "events_of twelve_likes \<noteq> []" by auto
  have ends: "ends_with_event twelve_likes"
    by (simp add: ends_with_event_def twelve_likes_def)
  have win: "\<forall>(t, n) \<in> set (events_of twelve_likes).
      same_key like_event n \<and> fst (hd (events_of twelve_likes)) \<ge> t - 3600000"
    by (simp add: twelve_likes_def same_key_def)
  have like: "ntype like_event = ''LIKE''" by (simp add: like_event_def)
  from sequential_grouping_single_row [OF wf none ne ends win]
  have "\<exists>r d. key_rows like_event (run_calls twelve_likes empty_store) = [r] \<and>
        data_count r = Some 12 \<and> \<not> isRead r \<and>
        decimal_numeral d \<and> decimal_value d = 12 \<and>
        message r = ''You received '' @ d @ '' new likes on your content''"
    by (simp add: len like)
  with wf none ends len twelve_likes_row show ?thesis by simp
qed

theorem single_event_keeps_own_message:
  "map message (key_rows like_event (run_calls [Group 1000 like_event] empty_store)) =
     [''fan1 liked your video''] \<and>
   map data_count (key_rows like_event (run_calls [Group 1000 like_event] empty_store)) =
     [Some 1] \<and>
   generateGroupedMessage ''LIKE'' 1 = ''You received 1 new likes on your content'' \<and>
   ''fan1 liked your video'' \<noteq> generateGroupedMessage ''LIKE'' 1"
  by (simp add: empty_store_def groupSimilarNotifications_def findSimilar_def
      findOne_def resume_def create_def spread_count_def data_count_def
      generateGroupedMessage_def show_int_def show_nat.simps key_rows_def same_key_def
      like_event_def Let_def)

text \<open>
  C2. Two calls for the same key, one millisecond apart on an empty store, whose
  queries both run before either write: each finds nothing, each inserts, and the store
  ends with two rows of the key. The find and the write are separate store operations
  with a suspension between them. The same two calls one after the other leave one row.
\<close>

theorem concurrent_grouping_duplicates:
  "length (key_rows like_event
      (interleaved 1000 1001 like_event like_event empty_store)) = 2 \<and>
   length (key_rows like_event
      (group_all [(1000, like_event), (1001, like_event)] empty_store)) = 1"
  by (simp add: interleaved_def groupSimilarNotifications_def findSimilar_def findOne_def
      empty_store_def resume_def create_def findByIdAndUpdate_def findOneAndUpdate_def
      similar_filter_def key_rows_def same_key_def like_event_def Let_def)

section \<open>Event bus\<close>




lemma async_rejection_leaves_others_running:
  "thrown (emitEvent \<lparr>comment_listeners = [rejecting_listener, logging_listener],
                      subscription_listeners = []\<rparr> (NEW_COMMENT own_comment) []) = None \<and>
   unhandled (emitEvent \<lparr>comment_listeners = [rejecting_listener, logging_listener],
                         subscription_listeners = []\<rparr> (NEW_COMMENT own_comment) []) =
     [TypeError] \<and>
   after (emitEvent \<lparr>comment_listeners = [rejecting_listener, logging_listener],
                     subscription_listeners = []\<rparr> (NEW_COMMENT own_comment) []) =
     [''first'', ''second'']"
  by (simp add: emitEvent_def rejecting_listener_def logging_listener_def)

section \<open>Self-notification\<close>

text \<open>
  The handler skips the notification service exactly when the two ids are strictly
  equal: the same string, or the same object.
\<close>

lemma newCommentHandler_strict_equal:
  assumes "strict_equal (authorId d) (videoOwnerId d)"
  shows "newCommentHandler createNotification d s = (None, s) \<and>
         after (emitEvent (registerEventHandlers createNotification empty_bus)
                  (NEW_COMMENT d) s) = s \<and>
         unhandled (emitEvent (registerEventHandlers createNotification empty_bus)
                  (NEW_COMMENT d) s) = []"
  using assms
  by (simp add: newCommentHandler_def emitEvent_def registerEventHandlers_def empty_bus_def)

text \<open>
  C8. A user comments on a video of their own. The controller emits the event with the
  author's id and the owner's id as two ObjectId instances of the same value; the
  handler compares them with \<^verbatim>\<open>!==\<close>, which is identity on objects, finds them
  different and calls the notification service: the store, empty before, holds one
  notification whose recipient and sender are that same user. Self-notification is not
  suppressed.
\<close>

theorem self_comment_notifies:
  "id_value (IdObject 1 ''owner1'') = id_value (IdObject 2 ''owner1'') \<and>
   rows (after (emitEvent (registerEventHandlers insert_notification empty_bus)
     (addComment_event (IdObject 1 ''owner1'') (IdString ''video1'') (IdObject 3 ''comment1'')
        (IdObject 2 ''owner1'') ''my own video'') empty_store)) =
     [\<lparr>recipient = ''owner1'', sender = Some ''owner1'', ntype = ''COMMENT'',
       resourceType = ''VIDEO'', resourceId = ''video1'',
       message = ''New comment on your video: '' @ [CHR 0x22] @ ''my own video...'' @
                 [CHR 0x22],
       data = None, nid = 0, isRead = False, deliveryStatus = default_deliveryStatus,
       createdAt = 5000, updatedAt = 5000\<rparr>]"
  by (simp add: addComment_event_def newCommentHandler_def emitEvent_def
      registerEventHandlers_def empty_bus_def insert_notification_def create_def
      empty_store_def Let_def)

section \<open>Real-time delivery\<close>

text \<open>
  What a publish does, in terms of the registry's entry for the user: one copy on the
  socket of that entry if it is open, nothing on any other socket.
\<close>

lemma sendNotificationToUser_effect:
  "clients (connection ws (Some u) srv) = (clients srv)(u \<mapsto> ws) \<and>
   fst (sendNotificationToUser u n srv) =
     (\<exists>a. clients srv u = Some a \<and> readyState (sockets srv a) = OPEN) \<and>
   (\<forall>a. sent (sockets (snd (sendNotificationToUser u n srv)) a) =
         sent (sockets srv a) @
           (if clients srv u = Some a \<and> readyState (sockets srv a) = OPEN
            then [Notification_message n] else [])) \<and>
   clients (snd (sendNotificationToUser u n srv)) = clients srv"
  by (auto simp: connection_def ws_send_def accept_def set_userId_def
      sendNotificationToUser_def split: option.splits)

text \<open>
  C6. User R connects from two devices, sockets 1 and 2, both open. The registry holds
  socket 2 only: a publish to R puts one copy on socket 2 and none on socket 1. When
  the first device then closes, its close callback deletes R's entry, which is the
  second device's: socket 2 is still open, yet a publish to R returns false and no
  socket receives a copy. The registry does not retain a user's simultaneous
  connections.
\<close>

theorem two_devices_lose_copies:
  "clients two_devices ''R'' = Some 2 \<and>
   readyState (sockets two_devices 1) = OPEN \<and> readyState (sockets two_devices 2) = OPEN \<and>
   count_list (sent (sockets (snd (sendNotificationToUser ''R'' sample_comment two_devices)) 1))
     (Notification_message sample_comment) = 0 \<and>
   count_list (sent (sockets (snd (sendNotificationToUser ''R'' sample_comment two_devices)) 2))
     (Notification_message sample_comment) = 1 \<and>
   clients first_device_closed ''R'' = None \<and>
   readyState (sockets first_device_closed 2) = OPEN \<and>
   sendNotificationToUser ''R'' sample_comment first_device_closed =
     (False, first_device_closed)"
  by (simp add: first_device_closed_def on_close_def ws_close_def two_devices_def
      connection_def ws_send_def accept_def set_userId_def sendNotificationToUser_def
      empty_server_def)

text \<open>
  C9. For a user with no open connection in the registry (none at all, or one that is
  not open), \<open>sendNotificationToUser\<close> returns false, the non-delivery outcome, and
  changes nothing; a router that takes it as the inApp adapter leaves
  \<^verbatim>\<open>deliveryStatus.inApp\<close> of the notification as it was.
\<close>

theorem offline_user_not_delivered:
  assumes "\<forall>a. clients srv u = Some a \<longrightarrow> readyState (sockets srv a) \<noteq> OPEN"
    and "recipient n = u"
  shows "sendNotificationToUser u n srv = (False, srv) \<and>
         inApp (deliveryStatus
           (deliver prefs typeKey
              (\<lambda>c m. if c = ''inApp'' then fst (sendNotificationToUser (recipient m) m srv)
                      else adapter c m) now n)) = inApp (deliveryStatus n)"
proof -
  have a: "sendNotificationToUser u n srv = (False, srv)"
    using assms(1) by (simp add: sendNotificationToUser_def split: option.splits)
  then show ?thesis using assms(2)
    by (simp add: deliver_def record_delivery_def)
qed

theorem offline_user_not_delivered_witness:
  "clients empty_server ''owner1'' = None \<and>
   sendNotificationToUser ''owner1'' sample_comment empty_server = (False, empty_server) \<and>
   \<not> delivered (inApp (deliveryStatus
           (deliver (Some default_preferences) pref_key
              (\<lambda>c m. if c = ''inApp''
                      then fst (sendNotificationToUser (recipient m) m empty_server)
                      else True) 2000 sample_comment)))"
proof -
  have h: "\<forall>a. clients empty_server ''owner1'' = Some a \<longrightarrow>
      readyState (sockets empty_server a) \<noteq> OPEN"
    by (simp add: empty_server_def)
  have r: "recipient sample_comment = ''owner1''" by (simp add: sample_comment_def)
  have d: "\<not> delivered (inApp (deliveryStatus sample_comment))"
    by (simp add: sample_comment_def default_deliveryStatus_def not_delivered_def)
  have c: "clients empty_server ''owner1'' = None" by (simp add: empty_server_def)
  from offline_user_not_delivered [OF h r, of "Some default_preferences" pref_key "\<lambda>c m. True" 2000]
  show ?thesis using d c by simp
qed

end
